theory Spec2Isabelle
  imports Main "HOL-Library.Sublist"
begin

section \<open>Mission Control dashboard: the client-side state logic of DashboardClient.tsx\<close>

text \<open>
  The development embeds the pure helpers and the state transitions of
  \<^verbatim>\<open>app/components/DashboardClient.tsx\<close>. JavaScript strings are modelled as
  \<^typ>\<open>string\<close> and read as ASCII text: \<open>toLowerCase\<close> folds the letters
  \<open>A\<close>..\<open>Z\<close> and \<open>trim\<close> strips the ASCII white space characters.
  Numbers that hold millisecond timestamps are integers. An optional field
  (\<^verbatim>\<open>label?: string\<close>) is an \<^typ>\<open>'a option\<close>, \<open>None\<close> standing for
  \<^verbatim>\<open>undefined\<close>/\<^verbatim>\<open>null\<close>. A field name that two record types share, or that
  is a name of the logic already (\<open>id\<close>, \<open>value\<close>, \<open>text\<close>), carries a prefix:
  \<open>l_id\<close>, \<open>l_stage\<close>, \<open>l_value\<close>, \<open>l_updatedAt\<close> for a lead, \<open>t_id\<close>, \<open>t_stage\<close>,
  \<open>t_updatedAt\<close> for a task, \<open>ev_text\<close> for a feed event.
\<close>

subsection \<open>String primitives\<close>

definition upper_letters :: string where
  "upper_letters = ''ABCDEFGHIJKLMNOPQRSTUVWXYZ''"

definition lower_letters :: string where
  "lower_letters = ''abcdefghijklmnopqrstuvwxyz''"

definition lower_char :: "char \<Rightarrow> char" where
  "lower_char c = (case map_of (zip upper_letters lower_letters) c of Some d \<Rightarrow> d | None \<Rightarrow> c)"

definition toLowerCase :: "string \<Rightarrow> string" where
  "toLowerCase s = map lower_char s"

text \<open>\<^verbatim>\<open>s.startsWith(p)\<close>, \<^verbatim>\<open>s.includes(n)\<close> and \<^verbatim>\<open>s.endsWith(p)\<close>.\<close>

fun startsWith :: "string \<Rightarrow> string \<Rightarrow> bool" where
  "startsWith s [] = True"
| "startsWith [] (p # ps) = False"
| "startsWith (c # cs) (p # ps) = (c = p \<and> startsWith cs ps)"

fun str_includes :: "string \<Rightarrow> string \<Rightarrow> bool" where
  "str_includes [] n = (n = [])"
| "str_includes (c # cs) n = (startsWith (c # cs) n \<or> str_includes cs n)"

definition endsWith :: "string \<Rightarrow> string \<Rightarrow> bool" where
  "endsWith s p = startsWith (rev s) (rev p)"

text \<open>\<^verbatim>\<open>s.trim()\<close>: tab, line feed, vertical tab, form feed, carriage return, space.\<close>

definition is_space :: "char \<Rightarrow> bool" where
  "is_space c = (c \<in> set [CHR 0x09, CHR 0x0A, CHR 0x0B, CHR 0x0C, CHR 0x0D, CHR '' ''])"

definition trim :: "string \<Rightarrow> string" where
  "trim s = rev (dropWhile is_space (rev (dropWhile is_space s)))"

text \<open>\<^verbatim>\<open>x || ""\<close> on an optional string, \<^verbatim>\<open>x || undefined\<close> on a string, and the
  truthiness \<^verbatim>\<open>!!x\<close> of an optional string (the empty string is falsy).\<close>

definition or_empty :: "string option \<Rightarrow> string" where
  "or_empty x = (case x of None \<Rightarrow> [] | Some s \<Rightarrow> s)"

definition or_undefined :: "string \<Rightarrow> string option" where
  "or_undefined s = (if s = [] then None else Some s)"

definition truthy :: "string option \<Rightarrow> bool" where
  "truthy x = (case x of None \<Rightarrow> False | Some s \<Rightarrow> s \<noteq> [])"

subsection \<open>Task stages and mission statuses\<close>

text \<open>
  \<^verbatim>\<open>type TaskStage = "inbox" | "assigned" | "in_progress" | "review" | "done"\<close> and
  \<^verbatim>\<open>type MissionStatus = 'INBOX' | 'ASSIGNED' | 'IN_PROGRESS' | 'REVIEW' | 'DONE'\<close>.
  The stage constructors are capitalised (\<open>done\<close> is a keyword of the proof language).
\<close>

datatype TaskStage = Inbox | Assigned | In_progress | Review | Done

datatype MissionStatus = INBOX | ASSIGNED | IN_PROGRESS | REVIEW | DONE

fun taskStageToMissionStatus :: "TaskStage \<Rightarrow> MissionStatus" where
  "taskStageToMissionStatus Inbox = INBOX"
| "taskStageToMissionStatus Assigned = ASSIGNED"
| "taskStageToMissionStatus In_progress = IN_PROGRESS"
| "taskStageToMissionStatus Review = REVIEW"
| "taskStageToMissionStatus Done = DONE"

fun missionStatusToTaskStage :: "MissionStatus \<Rightarrow> TaskStage" where
  "missionStatusToTaskStage INBOX = Inbox"
| "missionStatusToTaskStage ASSIGNED = Assigned"
| "missionStatusToTaskStage IN_PROGRESS = In_progress"
| "missionStatusToTaskStage REVIEW = Review"
| "missionStatusToTaskStage DONE = Done"

subsection \<open>Feed events and their classification\<close>

text \<open>A row of the remote \<^verbatim>\<open>events\<close> table as the feed reads it. The payload is
  loosely typed JSON, \<open>None\<close> when it is \<^verbatim>\<open>null\<close> or absent: an object, with the two
  members the formatter reads and its \<^verbatim>\<open>JSON.stringify\<close> rendering, or a primitive
  (a number, a string, a boolean), with its truthiness and its rendering; a primitive
  has neither member. \<open>created_at\<close> holds the parsed time in milliseconds.\<close>

record payload =
  p_title :: "string option"
  p_status :: "string option"
  p_json :: string

datatype payload_value = Primitive bool string | Object payload

record event_row =
  created_at :: "int option"
  row_type :: "string option"
  row_payload :: "payload_value option"

record TranscriptEvent =
  ts :: "int option"
  kind :: string
  ev_text :: "string option"
  tool :: "string option"
  raw :: event_row

datatype category = Tools | Messages | Decisions | Docs | Status | Other

definition isStatusKind :: "string \<Rightarrow> bool" where
  "isStatusKind knd =
     (let k = toLowerCase knd in
        k = ''session'' \<or> k = ''status'' \<or> endsWith k ''_change'' \<or>
        startsWith k ''model_'' \<or> startsWith k ''thinking_'')"

definition classifyEvent :: "TranscriptEvent \<Rightarrow> category" where
  "classifyEvent ev =
     (let knd = toLowerCase (kind ev); hasTool = truthy (tool ev) in
        if hasTool \<or> knd = ''tool'' \<or> knd = ''tool_call'' then Tools
        else if knd = ''message'' then Messages
        else if str_includes knd ''decision'' then Decisions
        else if str_includes knd ''doc'' then Docs
        else if isStatusKind knd then Status
        else Other)"

text \<open>The \<^verbatim>\<open>feedCounts\<close> memo: \<open>all\<close> is the length of the list, the loop bumps one
  counter per event (none for an event classified \<open>other\<close>).\<close>

record counts =
  c_all :: nat
  c_tools :: nat
  c_messages :: nat
  c_decisions :: nat
  c_docs :: nat
  c_status :: nat

definition count_event :: "counts \<Rightarrow> TranscriptEvent \<Rightarrow> counts" where
  "count_event cs ev =
     (let c = classifyEvent ev in
        if c = Tools then cs\<lparr>c_tools := c_tools cs + 1\<rparr>
        else if c = Messages then cs\<lparr>c_messages := c_messages cs + 1\<rparr>
        else if c = Decisions then cs\<lparr>c_decisions := c_decisions cs + 1\<rparr>
        else if c = Docs then cs\<lparr>c_docs := c_docs cs + 1\<rparr>
        else if c = Status then cs\<lparr>c_status := c_status cs + 1\<rparr>
        else cs)"

definition feedCounts :: "TranscriptEvent list \<Rightarrow> counts" where
  "feedCounts evs =
     foldl count_event
       (\<lparr>c_all = 0, c_tools = 0, c_messages = 0, c_decisions = 0, c_docs = 0, c_status = 0\<rparr>
          \<lparr>c_all := length evs\<rparr>)
       evs"

subsection \<open>Sessions and the nickname assignment\<close>

record SessionItem =
  key :: string
  sessionId :: string
  label :: "string option"
  displayName :: "string option"
  updatedAt :: "int option"
  transcriptPath :: "string option"
  model :: "string option"

definition AGENT_NICKNAMES :: "string list" where
  "AGENT_NICKNAMES = [''Orbit'', ''Forge'', ''Pulse'', ''Scout'', ''Ledger'']"

text \<open>The haystack of \<^verbatim>\<open>guessNickname\<close>:
  \<^verbatim>\<open>`${s.displayName || ""} ${s.label || ""} ${s.sessionId || ""}`.toLowerCase()\<close>.\<close>

definition hay :: "SessionItem \<Rightarrow> string" where
  "hay s = toLowerCase (or_empty (displayName s) @ '' '' @ or_empty (label s) @ '' '' @ sessionId s)"

text \<open>\<^verbatim>\<open>guessNickname\<close> and \<^verbatim>\<open>withNicknames\<close> read the constant pool
  \<^verbatim>\<open>AGENT_NICKNAMES\<close>; the pool is a parameter of \<open>guessNickname_in\<close> and
  \<open>withNicknames_in\<close>, and the source's functions are their instances at the constant.
  The loop of \<^verbatim>\<open>guessNickname\<close> returns the first pool name the haystack includes.\<close>

definition guessNickname_in :: "string list \<Rightarrow> SessionItem \<Rightarrow> string option" where
  "guessNickname_in pool s = find (\<lambda>n. str_includes (hay s) (toLowerCase n)) pool"

definition guessNickname :: "SessionItem \<Rightarrow> string option" where
  "guessNickname = guessNickname_in AGENT_NICKNAMES"

text \<open>\<^verbatim>\<open>[...sessions].sort((a, b) => (b.updatedAt || 0) - (a.updatedAt || 0))\<close>: a stable
  sort, descending in the time of the last update.\<close>

definition recency :: "SessionItem \<Rightarrow> int" where
  "recency s = (case updatedAt s of None \<Rightarrow> 0 | Some u \<Rightarrow> u)"

definition sorted_sessions :: "SessionItem list \<Rightarrow> SessionItem list" where
  "sorted_sessions sessions = sort_key (\<lambda>s. - recency s) sessions"

text \<open>The \<^verbatim>\<open>Map<string, string>\<close> of bindings. A stored value is \<open>None\<close> when the
  code stores \<^verbatim>\<open>undefined\<close>, which \<^verbatim>\<open>pool[i % pool.length]\<close> is for an empty pool.\<close>

type_synonym binding = "string \<rightharpoonup> string option"

definition pool_at :: "string list \<Rightarrow> nat \<Rightarrow> string option" where
  "pool_at pool i = (if i < length pool then Some (pool ! i) else None)"

text \<open>Pass 1, over the sessions in their given order: \<^verbatim>\<open>if (g) map.set(s.key, g)\<close>.\<close>

fun explicit_pass :: "string list \<Rightarrow> SessionItem list \<Rightarrow> binding \<Rightarrow> binding" where
  "explicit_pass pool [] m = m"
| "explicit_pass pool (s # ss) m =
     explicit_pass pool ss
       (if truthy (guessNickname_in pool s) then m(key s \<mapsto> guessNickname_in pool s) else m)"

text \<open>Pass 2, over the sorted sessions, with the counter \<open>i\<close>.\<close>

fun recency_fill :: "string list \<Rightarrow> SessionItem list \<Rightarrow> nat \<Rightarrow> binding \<Rightarrow> binding" where
  "recency_fill pool [] i m = m"
| "recency_fill pool (s # ss) i m =
     (if m (key s) \<noteq> None then recency_fill pool ss i m
      else recency_fill pool ss (i + 1) (m(key s \<mapsto> pool_at pool (i mod length pool))))"

definition bindings_in :: "string list \<Rightarrow> SessionItem list \<Rightarrow> binding" where
  "bindings_in pool sessions =
     recency_fill pool (sorted_sessions sessions) 0 (explicit_pass pool sessions Map.empty)"

text \<open>\<^verbatim>\<open>map.get(s.key) || "Agent"\<close>.\<close>

definition nickname_of :: "binding \<Rightarrow> SessionItem \<Rightarrow> string" where
  "nickname_of m s =
     (case m (key s) of
        Some (Some n) \<Rightarrow> if n = [] then ''Agent'' else n
      | _ \<Rightarrow> ''Agent'')"

text \<open>The result pairs every session with its nickname
  (\<^verbatim>\<open>{ ...s, nickname }\<close>).\<close>

definition withNicknames_in :: "string list \<Rightarrow> SessionItem list \<Rightarrow> (SessionItem \<times> string) list" where
  "withNicknames_in pool sessions =
     map (\<lambda>s. (s, nickname_of (bindings_in pool sessions) s)) sessions"

definition withNicknames :: "SessionItem list \<Rightarrow> (SessionItem \<times> string) list" where
  "withNicknames = withNicknames_in AGENT_NICKNAMES"

subsection \<open>Leads, tasks and the state of the component\<close>

datatype LeadStage = Lead | Qualified | Meeting | Proposal | Won | Lost

record LeadItem =
  l_id :: string
  name :: string
  company :: string
  role :: "string option"
  l_stage :: LeadStage
  l_value :: "string option"
  nextStep :: "string option"
  l_updatedAt :: int

record TaskItem =
  t_id :: string
  title :: string
  desc :: "string option"
  t_stage :: TaskStage
  tags :: "string list option"
  assignee :: "string option"
  t_updatedAt :: int

record NewLead =
  nl_name :: string
  nl_company :: string
  nl_role :: string
  nl_value :: string
  nl_nextStep :: string

record NewTask =
  nt_title :: string
  nt_desc :: string
  nt_assignee :: string
  nt_tags :: string

text \<open>The calls the component issues to the remote store, in the order issued, and what
  a failed call throws: an \<^verbatim>\<open>Error\<close> instance with its message, or another value
  with its \<^verbatim>\<open>String(e)\<close> rendering.\<close>

datatype audit_payload = StatusPayload MissionStatus | TitlePayload string

datatype remote_call =
    SelectEvents string
  | UpdateMissionStatus string MissionStatus
  | InsertMission string string "string option" "string list" MissionStatus string
  | InsertEvent string string string "string option" audit_payload

datatype thrown = ErrorInstance string | OtherValue string

text \<open>The row a successful insert into \<^verbatim>\<open>missions\<close> returns; the two times are the
  parsed \<^verbatim>\<open>updated_at\<close> and \<^verbatim>\<open>created_at\<close>, in milliseconds.\<close>

record mission_row =
  m_id :: string
  m_title :: string
  m_description :: "string option"
  m_tags :: "string list option"
  m_updated_at :: "int option"
  m_created_at :: "int option"

record dashboard =
  tasks :: "TaskItem list"
  leads :: "LeadItem list"
  events :: "TranscriptEvent list"
  eventsError :: string
  statusText :: string
  statusError :: string
  dbError :: string
  workspaceId :: "string option"
  profileId :: "string option"
  newLead :: NewLead
  newTask :: NewTask
  remote :: "remote_call list"

text \<open>The error strings the component renders. The JSX reads two of the three error
  states: \<^verbatim>\<open>{eventsError ? <div ...>{eventsError}</div> : ...}\<close> in the live feed and
  \<^verbatim>\<open>{statusError ? <pre ...>{statusError}</pre> : ...}\<close> in the agent status pane, each
  shown when it is not empty. \<^verbatim>\<open>dbError\<close> is declared and set, and read nowhere.\<close>

definition shown_errors :: "dashboard \<Rightarrow> string list" where
  "shown_errors st = filter (\<lambda>e. e \<noteq> []) [eventsError st, statusError st]"

subsection \<open>Identifiers\<close>

text \<open>\<^verbatim>\<open>Math.random().toString(16).slice(2) + Date.now().toString(16)\<close>. The random
  number enters as its base 16 rendering \<open>rnd\<close> (\<^verbatim>\<open>"0.8"\<close> for one half), the clock
  as the integer \<open>now\<close>.\<close>

definition hex_digit :: "nat \<Rightarrow> char" where
  "hex_digit d = ''0123456789abcdef'' ! d"

function hex_of_nat :: "nat \<Rightarrow> string" where
  "hex_of_nat n = (if n < 16 then [hex_digit n] else hex_of_nat (n div 16) @ [hex_digit (n mod 16)])"
  by pat_completeness auto
termination
  by (relation "measure (\<lambda>n. n)") auto

declare hex_of_nat.simps [simp del]

definition toString16 :: "int \<Rightarrow> string" where
  "toString16 n = (if n < 0 then CHR ''-'' # hex_of_nat (nat (- n)) else hex_of_nat (nat n))"

definition uid :: "string \<Rightarrow> int \<Rightarrow> string" where
  "uid rnd now = drop 2 rnd @ toString16 now"

subsection \<open>Lead mutations\<close>

text \<open>\<^verbatim>\<open>moveLead(id, stage)\<close>; \<open>now\<close> is \<^verbatim>\<open>Date.now()\<close>.\<close>

definition moveLead :: "int \<Rightarrow> string \<Rightarrow> LeadStage \<Rightarrow> dashboard \<Rightarrow> dashboard" where
  "moveLead now i stage st =
     st\<lparr>leads := map (\<lambda>l. if l_id l = i then l\<lparr>l_stage := stage, l_updatedAt := now\<rparr> else l) (leads st)\<rparr>"

definition empty_newLead :: NewLead where
  "empty_newLead = \<lparr>nl_name = [], nl_company = [], nl_role = [], nl_value = [], nl_nextStep = []\<rparr>"

text \<open>\<^verbatim>\<open>addLead()\<close>; \<open>rnd\<close> and \<open>t_uid\<close> are the random number and the clock that
  \<^verbatim>\<open>uid()\<close> reads, \<open>now\<close> the clock of \<^verbatim>\<open>updatedAt: Date.now()\<close>.\<close>

definition addLead :: "string \<Rightarrow> int \<Rightarrow> int \<Rightarrow> dashboard \<Rightarrow> dashboard" where
  "addLead rnd t_uid now st =
     (let nm = trim (nl_name (newLead st)); co = trim (nl_company (newLead st)) in
        if nm = [] \<or> co = [] then st
        else st\<lparr>leads :=
                  \<lparr>l_id = uid rnd t_uid, name = nm, company = co,
                    role = or_undefined (trim (nl_role (newLead st))),
                    l_stage = Lead,
                    l_value = or_undefined (trim (nl_value (newLead st))),
                    nextStep = or_undefined (trim (nl_nextStep (newLead st))),
                    l_updatedAt = now\<rparr> # leads st,
                newLead := empty_newLead\<rparr>)"

subsection \<open>Task mutations\<close>

definition error_message :: "thrown \<Rightarrow> string \<Rightarrow> string" where
  "error_message e fallback = (case e of ErrorInstance msg \<Rightarrow> msg | OtherValue _ \<Rightarrow> fallback)"

text \<open>The optimistic update of \<^verbatim>\<open>moveTask\<close>.\<close>

definition move_in :: "int \<Rightarrow> string \<Rightarrow> TaskStage \<Rightarrow> TaskItem list \<Rightarrow> TaskItem list" where
  "move_in now i stage tsk =
     map (\<lambda>t. if t_id t = i then t\<lparr>t_stage := stage, t_updatedAt := now\<rparr> else t) tsk"

text \<open>\<^verbatim>\<open>moveTask(id, stage)\<close>. \<open>resp\<close> is the \<^verbatim>\<open>error\<close> member of what the update of
  \<^verbatim>\<open>missions\<close> returns (read only when the update is issued). The code discards what
  the audit insert returns, so that call only shows in the log of remote calls.\<close>

definition moveTask :: "int \<Rightarrow> string \<Rightarrow> TaskStage \<Rightarrow> thrown option \<Rightarrow> dashboard \<Rightarrow> dashboard" where
  "moveTask now i stage resp st =
     (let prevTasks = tasks st;
          st1 = st\<lparr>tasks := move_in now i stage (tasks st)\<rparr>
      in if \<not> truthy (workspaceId st) then st1
         else
           let status = taskStageToMissionStatus stage;
               st2 = st1\<lparr>remote := remote st1 @ [UpdateMissionStatus i status]\<rparr>
           in case resp of
                Some e \<Rightarrow>
                  st2\<lparr>dbError := error_message e ''Failed to update mission'', tasks := prevTasks\<rparr>
              | None \<Rightarrow>
                  st2\<lparr>remote := remote st2 @
                         [InsertEvent (or_empty (workspaceId st)) ''STATUS_CHANGED'' i (profileId st)
                            (StatusPayload status)]\<rparr>)"

text \<open>\<^verbatim>\<open>newTask.tags.split(",").map((t) => t.trim()).filter(Boolean)\<close>.\<close>

fun split_on :: "char \<Rightarrow> string \<Rightarrow> string list" where
  "split_on d [] = [[]]"
| "split_on d (c # cs) =
     (if c = d then [] # split_on d cs
      else (case split_on d cs of [] \<Rightarrow> [[c]] | w # ws \<Rightarrow> (c # w) # ws))"

definition parse_tags :: "string \<Rightarrow> string list" where
  "parse_tags s = filter (\<lambda>t. t \<noteq> []) (map trim (split_on CHR '','' s))"

definition empty_newTask :: NewTask where
  "empty_newTask = \<lparr>nt_title = [], nt_desc = [], nt_assignee = [], nt_tags = []\<rparr>"

text \<open>The local-only tail of \<^verbatim>\<open>addTask\<close>.\<close>

definition addTask_local :: "string \<Rightarrow> int \<Rightarrow> int \<Rightarrow> string \<Rightarrow> string list \<Rightarrow> dashboard \<Rightarrow> dashboard" where
  "addTask_local rnd t_uid now ttl tgs st =
     st\<lparr>tasks :=
          \<lparr>t_id = uid rnd t_uid, title = ttl,
            desc = or_undefined (trim (nt_desc (newTask st))),
            t_stage = Inbox,
            tags = (if tgs \<noteq> [] then Some tgs else None),
            assignee = or_undefined (trim (nt_assignee (newTask st))),
            t_updatedAt = now\<rparr> # tasks st,
        newTask := empty_newTask\<rparr>"

text \<open>\<^verbatim>\<open>new Date(data.updated_at || data.created_at || Date.now()).getTime()\<close>.\<close>

definition row_time :: "mission_row \<Rightarrow> int \<Rightarrow> int" where
  "row_time r now =
     (case m_updated_at r of Some u \<Rightarrow> u
      | None \<Rightarrow> (case m_created_at r of Some c \<Rightarrow> c | None \<Rightarrow> now))"

text \<open>\<^verbatim>\<open>addTask()\<close>. \<open>resp\<close> is what the insert into \<^verbatim>\<open>missions\<close> returns: the error
  that \<^verbatim>\<open>if (error) throw error\<close> throws, or the inserted row. \<open>now\<close> is the clock of
  whichever \<^verbatim>\<open>Date.now()\<close> the path taken reads.\<close>

definition addTask :: "string \<Rightarrow> int \<Rightarrow> int \<Rightarrow> thrown + mission_row \<Rightarrow> dashboard \<Rightarrow> dashboard" where
  "addTask rnd t_uid now resp st =
     (let ttl = trim (nt_title (newTask st)) in
        if ttl = [] then st
        else
          let tgs = parse_tags (nt_tags (newTask st)) in
            if truthy (workspaceId st) \<and> truthy (profileId st) then
              (let st1 = st\<lparr>remote := remote st @
                              [InsertMission (or_empty (workspaceId st)) ttl
                                 (or_undefined (trim (nt_desc (newTask st)))) tgs INBOX
                                 (or_empty (profileId st))]\<rparr>
               in case resp of
                    Inr data \<Rightarrow>
                      st1\<lparr>tasks :=
                            \<lparr>t_id = m_id data, title = m_title data,
                              desc = or_undefined (or_empty (m_description data)),
                              t_stage = Inbox,
                              tags = m_tags data,
                              assignee = or_undefined (trim (nt_assignee (newTask st))),
                              t_updatedAt = row_time data now\<rparr> # tasks st1,
                          remote := remote st1 @
                            [InsertEvent (or_empty (workspaceId st)) ''MISSION_CREATED'' (m_id data)
                               (profileId st) (TitlePayload ttl)],
                          newTask := empty_newTask\<rparr>
                  | Inl e \<Rightarrow>
                      addTask_local rnd t_uid now ttl tgs
                        (st1\<lparr>dbError := error_message e ''Failed to add mission''\<rparr>))
            else addTask_local rnd t_uid now ttl tgs st)"

subsection \<open>The mission events feed\<close>

text \<open>\<^verbatim>\<open>fmtMissionEvent(type, payload)\<close>; the arrow of the second message is the three
  bytes of its UTF-8 encoding.\<close>

definition or_default :: "string option \<Rightarrow> string \<Rightarrow> string" where
  "or_default x d = (if truthy x then or_empty x else d)"

text \<open>\<^verbatim>\<open>payload?.title\<close> and \<^verbatim>\<open>payload?.status\<close>, the truthiness of the payload
  (\<^verbatim>\<open>0\<close>, \<^verbatim>\<open>""\<close> and \<^verbatim>\<open>false\<close> are falsy as \<^verbatim>\<open>null\<close> is), and
  \<^verbatim>\<open>JSON.stringify(payload)\<close>.\<close>

definition payload_member :: "(payload \<Rightarrow> string option) \<Rightarrow> payload_value option \<Rightarrow> string option" where
  "payload_member f pl = (case pl of Some (Object p) \<Rightarrow> f p | _ \<Rightarrow> None)"

definition payload_truthy :: "payload_value option \<Rightarrow> bool" where
  "payload_truthy pl =
     (case pl of None \<Rightarrow> False | Some (Primitive b j) \<Rightarrow> b | Some (Object p) \<Rightarrow> True)"

definition payload_json :: "payload_value option \<Rightarrow> string" where
  "payload_json pl =
     (case pl of None \<Rightarrow> [] | Some (Primitive b j) \<Rightarrow> j | Some (Object p) \<Rightarrow> p_json p)"

definition fmtMissionEvent :: "string \<Rightarrow> payload_value option \<Rightarrow> string" where
  "fmtMissionEvent ty pl =
     (if ty = ''MISSION_CREATED'' then
        ''Created mission: '' @ or_default (payload_member p_title pl) ''(untitled)''
      else if ty = ''STATUS_CHANGED'' then
        ''Status changed '' @ [CHR 0xE2, CHR 0x86, CHR 0x92] @ '' '' @
          or_default (payload_member p_status pl) ''(unknown)''
      else if payload_truthy pl then ty @ '': '' @ payload_json pl
      else ty)"

definition map_row :: "event_row \<Rightarrow> TranscriptEvent" where
  "map_row r =
     \<lparr>ts = created_at r,
      kind = or_default (row_type r) ''event'',
      ev_text = Some (fmtMissionEvent (or_default (row_type r) ''event'') (row_payload r)),
      tool = None,
      raw = r\<rparr>"

text \<open>One run of \<^verbatim>\<open>tickMissionEvents\<close>. \<open>resp\<close> is what the query returns: the thrown
  error, or the rows (\<open>None\<close> for a null \<^verbatim>\<open>data\<close>). \<open>alive\<close> is the liveness flag of
  the effect at the time the query returns. Only the cleanup of the effect clears it, and
  the cleanup runs when a dependency of the effect changes or the component unmounts: the
  workspace is set once and the interval is a constant of the build, so the flag of a
  tick that runs for a resolved workspace is set for as long as the component is mounted.\<close>

definition tickMissionEvents :: "bool \<Rightarrow> thrown + event_row list option \<Rightarrow> dashboard \<Rightarrow> dashboard" where
  "tickMissionEvents alive resp st =
     (let st1 = st\<lparr>eventsError := [],
                    remote := remote st @ [SelectEvents (or_empty (workspaceId st))]\<rparr>
      in case resp of
           Inr data \<Rightarrow>
             if \<not> alive then st1
             else st1\<lparr>events := map map_row (case data of None \<Rightarrow> [] | Some rows \<Rightarrow> rows)\<rparr>
         | Inl e \<Rightarrow>
             if \<not> alive then st1
             else st1\<lparr>events := [],
                      eventsError := (case e of ErrorInstance msg \<Rightarrow> msg | OtherValue str \<Rightarrow> str)\<rparr>)"

text \<open>The body of the effect, up to its first tick.\<close>

definition missionEventsEffect :: "bool \<Rightarrow> thrown + event_row list option \<Rightarrow> dashboard \<Rightarrow> dashboard" where
  "missionEventsEffect alive resp st =
     (if \<not> truthy (workspaceId st) then
        st\<lparr>events := [], eventsError := ''Waiting for workspace...''\<rparr>
      else tickMissionEvents alive resp st)"

subsection \<open>Sample inputs\<close>

text \<open>Concrete sessions, leads, tasks and states on which the properties below are
  evaluated. \<open>session_a\<close> and \<open>session_b\<close> are the two sessions of the scenario
  \<^verbatim>\<open>[{key:"a", updatedAt:100, label:"Orbit handles X"}, {key:"b", updatedAt:200, label:"unlabeled"}]\<close>;
  \<open>dup_orbit\<close> and \<open>dup_forge\<close> are two sessions that share one key.\<close>

definition session_a :: SessionItem where
  "session_a = \<lparr>key = ''a'', sessionId = ''s1'', label = Some ''Orbit handles X'', displayName = None,
     updatedAt = Some 100, transcriptPath = None, model = None\<rparr>"

definition session_b :: SessionItem where
  "session_b = \<lparr>key = ''b'', sessionId = ''s2'', label = Some ''unlabeled'', displayName = None,
     updatedAt = Some 200, transcriptPath = None, model = None\<rparr>"

definition dup_orbit :: SessionItem where
  "dup_orbit = \<lparr>key = ''k'', sessionId = ''s1'', label = Some ''Orbit'', displayName = None,
     updatedAt = Some 100, transcriptPath = None, model = None\<rparr>"

definition dup_forge :: SessionItem where
  "dup_forge = \<lparr>key = ''k'', sessionId = ''s1'', label = Some ''Forge'', displayName = None,
     updatedAt = Some 200, transcriptPath = None, model = None\<rparr>"

definition sample_leads :: "LeadItem list" where
  "sample_leads =
     [\<lparr>l_id = ''l1'', name = ''Asha'', company = ''Acme'', role = Some ''CMO'', l_stage = Lead,
        l_value = None, nextStep = Some ''call'', l_updatedAt = 1699999000000\<rparr>,
      \<lparr>l_id = ''l2'', name = ''Ravi'', company = ''Birla'', role = None, l_stage = Meeting,
        l_value = Some ''5L'', nextStep = None, l_updatedAt = 1699999500000\<rparr>]"

definition sample_tasks :: "TaskItem list" where
  "sample_tasks =
     [\<lparr>t_id = ''818bcfe56800'', title = ''Draft posts'', desc = None, t_stage = In_progress,
        tags = Some [''linkedin''], assignee = Some ''Forge'', t_updatedAt = 1699999000000\<rparr>,
      \<lparr>t_id = ''t2'', title = ''Prospect list'', desc = None, t_stage = Assigned,
        tags = None, assignee = Some ''Scout'', t_updatedAt = 1699999500000\<rparr>]"

definition sample_row :: event_row where
  "sample_row = \<lparr>created_at = Some 1699999900000, row_type = Some ''STATUS_CHANGED'', row_payload = None\<rparr>"

definition sample_local :: dashboard where
  "sample_local =
     \<lparr>tasks = sample_tasks, leads = sample_leads, events = [map_row sample_row],
      eventsError = [], statusText = ''idle'', statusError = [], dbError = [],
      workspaceId = None, profileId = None,
      newLead = \<lparr>nl_name = '' Meera '', nl_company = ''Tata'', nl_role = '' '', nl_value = ''2L'',
                  nl_nextStep = []\<rparr>,
      newTask = \<lparr>nt_title = '' Ship it '', nt_desc = [], nt_assignee = ''Orbit'', nt_tags = ''a, b,,''\<rparr>,
      remote = []\<rparr>"

definition sample_remote :: dashboard where
  "sample_remote = sample_local\<lparr>workspaceId := Some ''ws1'', profileId := Some ''u1''\<rparr>"

section \<open>Properties\<close>

subsection \<open>The string primitives against the library's notions\<close>

lemma startsWith_prefix: "startsWith s p = prefix p s"
  by (induction s p rule: startsWith.induct) auto

lemma str_includes_sublist: "str_includes s n = sublist n s"
proof (induction s)
  case Nil
  then show ?case by simp
next
  case (Cons c cs)
  then show ?case by (cases n) (auto simp: startsWith_prefix sublist_Cons_right)
qed

lemma endsWith_suffix: "endsWith s p = suffix p s"
  by (simp add: endsWith_def startsWith_prefix suffix_to_prefix)

lemma lower_char_idem: "lower_char (lower_char c) = lower_char c"
  by (simp add: lower_char_def upper_letters_def lower_letters_def)

lemma toLowerCase_idem: "toLowerCase (toLowerCase s) = toLowerCase s"
  by (simp add: toLowerCase_def lower_char_idem)

lemma lower_tool_call: "toLowerCase ''tool_call'' = ''tool_call''"
  by code_simp

lemma lower_message: "toLowerCase ''message'' = ''message''"
  by code_simp

lemma lower_status: "toLowerCase ''status'' = ''status''"
  by code_simp

lemma lower_tool_decision: "toLowerCase ''tool_decision'' = ''tool_decision''"
  by code_simp

subsection \<open>Stage mapping\<close>

lemma stage_roundtrip: "missionStatusToTaskStage (taskStageToMissionStatus s) = s"
  by (cases s) simp_all

lemma status_roundtrip: "taskStageToMissionStatus (missionStatusToTaskStage m) = m"
  by (cases m) simp_all

lemma TaskStage_UNIV: "(UNIV :: TaskStage set) = {Inbox, Assigned, In_progress, Review, Done}"
  using TaskStage.exhaust by auto

lemma MissionStatus_UNIV: "(UNIV :: MissionStatus set) = {INBOX, ASSIGNED, IN_PROGRESS, REVIEW, DONE}"
  using MissionStatus.exhaust by auto

text \<open>
  C5. The stage to status mapping is a bijection between the five task stages and the
  five mission statuses: mapping a stage to its status and back gives the stage again
  (and a status to its stage and back gives the status), both functions are bijections,
  and each of the two types has exactly the five listed values, on all of which the
  functions are defined.
\<close>

theorem stage_status_bijection:
  "missionStatusToTaskStage (taskStageToMissionStatus s) = s
   \<and> taskStageToMissionStatus (missionStatusToTaskStage m) = m
   \<and> bij taskStageToMissionStatus
   \<and> bij missionStatusToTaskStage
   \<and> range taskStageToMissionStatus = {INBOX, ASSIGNED, IN_PROGRESS, REVIEW, DONE}
   \<and> range missionStatusToTaskStage = {Inbox, Assigned, In_progress, Review, Done}
   \<and> card (UNIV :: TaskStage set) = 5
   \<and> card (UNIV :: MissionStatus set) = 5"
proof -
  have b1: "bij taskStageToMissionStatus"
    by (rule bijI') (metis stage_roundtrip, metis status_roundtrip)
  have b2: "bij missionStatusToTaskStage"
    by (rule bijI') (metis status_roundtrip, metis stage_roundtrip)
  have r1: "range taskStageToMissionStatus = {INBOX, ASSIGNED, IN_PROGRESS, REVIEW, DONE}"
    using b1 MissionStatus_UNIV by (simp add: bij_def)
  have r2: "range missionStatusToTaskStage = {Inbox, Assigned, In_progress, Review, Done}"
    using b2 TaskStage_UNIV by (simp add: bij_def)
  have c1: "card (UNIV :: TaskStage set) = 5"
    by (simp add: TaskStage_UNIV)
  have c2: "card (UNIV :: MissionStatus set) = 5"
    by (simp add: MissionStatus_UNIV)
  show ?thesis
    using b1 b2 r1 r2 c1 c2 by (simp add: stage_roundtrip status_roundtrip)
qed

subsection \<open>Event classification\<close>

text \<open>
  C4. \<open>classifyEvent\<close> tests the six categories in the order tools, messages, decisions,
  docs, status, other: an event falls in a category exactly when the category's own test
  holds and the test of every earlier category fails, all tests reading the lower-cased
  kind. In particular an event with a non-empty tool and the kind "decision" is classified
  tools, and an event of kind "tool_decision" with no tool (absent or empty) is
  classified decisions.
\<close>

theorem classifyEvent_precedence:
  fixes ev :: TranscriptEvent
  defines "k \<equiv> toLowerCase (kind ev)"
  defines "is_tool \<equiv> truthy (tool ev) \<or> k = ''tool'' \<or> k = ''tool_call''"
  defines "is_status \<equiv> k = ''session'' \<or> k = ''status'' \<or> suffix ''_change'' k \<or>
                        prefix ''model_'' k \<or> prefix ''thinking_'' k"
  shows "(classifyEvent ev = Tools) = is_tool
    \<and> (classifyEvent ev = Messages) = (\<not> is_tool \<and> k = ''message'')
    \<and> (classifyEvent ev = Decisions) = (\<not> is_tool \<and> k \<noteq> ''message'' \<and> sublist ''decision'' k)
    \<and> (classifyEvent ev = Docs) =
         (\<not> is_tool \<and> k \<noteq> ''message'' \<and> \<not> sublist ''decision'' k \<and> sublist ''doc'' k)
    \<and> (classifyEvent ev = Status) =
         (\<not> is_tool \<and> k \<noteq> ''message'' \<and> \<not> sublist ''decision'' k \<and> \<not> sublist ''doc'' k \<and> is_status)
    \<and> (classifyEvent ev = Other) =
         (\<not> is_tool \<and> k \<noteq> ''message'' \<and> \<not> sublist ''decision'' k \<and> \<not> sublist ''doc'' k \<and>
          \<not> is_status)
    \<and> classifyEvent (ev\<lparr>kind := ''decision'', tool := Some (c # cs)\<rparr>) = Tools
    \<and> classifyEvent (ev\<lparr>kind := ''tool_decision'', tool := None\<rparr>) = Decisions
    \<and> classifyEvent (ev\<lparr>kind := ''tool_decision'', tool := Some []\<rparr>) = Decisions"
proof -
  have general:
    "(classifyEvent ev = Tools) = is_tool"
    "(classifyEvent ev = Messages) = (\<not> is_tool \<and> k = ''message'')"
    "(classifyEvent ev = Decisions) = (\<not> is_tool \<and> k \<noteq> ''message'' \<and> sublist ''decision'' k)"
    "(classifyEvent ev = Docs) =
       (\<not> is_tool \<and> k \<noteq> ''message'' \<and> \<not> sublist ''decision'' k \<and> sublist ''doc'' k)"
    "(classifyEvent ev = Status) =
       (\<not> is_tool \<and> k \<noteq> ''message'' \<and> \<not> sublist ''decision'' k \<and> \<not> sublist ''doc'' k \<and> is_status)"
    "(classifyEvent ev = Other) =
       (\<not> is_tool \<and> k \<noteq> ''message'' \<and> \<not> sublist ''decision'' k \<and> \<not> sublist ''doc'' k \<and>
        \<not> is_status)"
    unfolding k_def is_tool_def is_status_def
    by (simp_all add: classifyEvent_def str_includes_sublist isStatusKind_def toLowerCase_idem
        endsWith_suffix startsWith_prefix Let_def)
  have tools: "classifyEvent (ev\<lparr>kind := ''decision'', tool := Some (c # cs)\<rparr>) = Tools"
    by (simp add: classifyEvent_def truthy_def)
  have dec1: "classifyEvent (ev\<lparr>kind := ''tool_decision'', tool := None\<rparr>) = Decisions"
    by (simp add: classifyEvent_def truthy_def lower_tool_decision)
  have dec2: "classifyEvent (ev\<lparr>kind := ''tool_decision'', tool := Some []\<rparr>) = Decisions"
    by (simp add: classifyEvent_def truthy_def lower_tool_decision)
  show ?thesis
    using general tools dec1 dec2 by blast
qed

subsection \<open>Feed counts\<close>

lemma count_event_fields:
  "c_all (count_event cs ev) = c_all cs"
  "c_tools (count_event cs ev) = c_tools cs + (if classifyEvent ev = Tools then 1 else 0)"
  "c_messages (count_event cs ev) = c_messages cs + (if classifyEvent ev = Messages then 1 else 0)"
  "c_decisions (count_event cs ev) = c_decisions cs + (if classifyEvent ev = Decisions then 1 else 0)"
  "c_docs (count_event cs ev) = c_docs cs + (if classifyEvent ev = Docs then 1 else 0)"
  "c_status (count_event cs ev) = c_status cs + (if classifyEvent ev = Status then 1 else 0)"
  by (simp_all add: count_event_def Let_def)

lemma foldl_count_event:
  "c_all (foldl count_event cs evs) = c_all cs"
  "c_tools (foldl count_event cs evs) = c_tools cs + length (filter (\<lambda>ev. classifyEvent ev = Tools) evs)"
  "c_messages (foldl count_event cs evs) = c_messages cs + length (filter (\<lambda>ev. classifyEvent ev = Messages) evs)"
  "c_decisions (foldl count_event cs evs) = c_decisions cs + length (filter (\<lambda>ev. classifyEvent ev = Decisions) evs)"
  "c_docs (foldl count_event cs evs) = c_docs cs + length (filter (\<lambda>ev. classifyEvent ev = Docs) evs)"
  "c_status (foldl count_event cs evs) = c_status cs + length (filter (\<lambda>ev. classifyEvent ev = Status) evs)"
  by (induction evs arbitrary: cs; simp add: count_event_fields)+

text \<open>
  C8. Every per-category count of \<open>feedCounts\<close> is the number of events that
  \<open>classifyEvent\<close> maps to the category, and the count \<open>all\<close> is the length of the event
  list. For three events of kinds "tool_call", "message" and "status" without a tool the
  counts are all 3, tools 1, messages 1, status 1, decisions 0, docs 0.
\<close>

theorem feedCounts_counts:
  "feedCounts evs =
     \<lparr>c_all = length evs,
      c_tools = length (filter (\<lambda>ev. classifyEvent ev = Tools) evs),
      c_messages = length (filter (\<lambda>ev. classifyEvent ev = Messages) evs),
      c_decisions = length (filter (\<lambda>ev. classifyEvent ev = Decisions) evs),
      c_docs = length (filter (\<lambda>ev. classifyEvent ev = Docs) evs),
      c_status = length (filter (\<lambda>ev. classifyEvent ev = Status) evs)\<rparr>
   \<and> feedCounts [e1\<lparr>kind := ''tool_call'', tool := None\<rparr>,
                 e2\<lparr>kind := ''message'', tool := None\<rparr>,
                 e3\<lparr>kind := ''status'', tool := None\<rparr>] =
     \<lparr>c_all = 3, c_tools = 1, c_messages = 1, c_decisions = 0, c_docs = 0, c_status = 1\<rparr>"
proof
  show "feedCounts evs =
     \<lparr>c_all = length evs,
      c_tools = length (filter (\<lambda>ev. classifyEvent ev = Tools) evs),
      c_messages = length (filter (\<lambda>ev. classifyEvent ev = Messages) evs),
      c_decisions = length (filter (\<lambda>ev. classifyEvent ev = Decisions) evs),
      c_docs = length (filter (\<lambda>ev. classifyEvent ev = Docs) evs),
      c_status = length (filter (\<lambda>ev. classifyEvent ev = Status) evs)\<rparr>"
    by (rule counts.equality) (simp_all add: feedCounts_def foldl_count_event)
  show "feedCounts [e1\<lparr>kind := ''tool_call'', tool := None\<rparr>,
                 e2\<lparr>kind := ''message'', tool := None\<rparr>,
                 e3\<lparr>kind := ''status'', tool := None\<rparr>] =
     \<lparr>c_all = 3, c_tools = 1, c_messages = 1, c_decisions = 0, c_docs = 0, c_status = 1\<rparr>"
    by (simp add: feedCounts_def count_event_def classifyEvent_def truthy_def lower_tool_call
        lower_message lower_status isStatusKind_def endsWith_def)
qed

subsection \<open>Lead mutations\<close>

text \<open>
  C10. \<open>moveLead\<close> keeps the length and order of the leads list; a lead whose id is the
  given one has its stage and time of update replaced and every other field kept, a lead
  with another id is unchanged, the whole state is unchanged when no lead has the id, and
  nothing but the leads list changes: in particular no remote call is issued.
\<close>

theorem moveLead_frame:
  "length (leads (moveLead now i stage st)) = length (leads st)
   \<and> (\<forall>j < length (leads st).
         leads (moveLead now i stage st) ! j =
           (if l_id (leads st ! j) = i then (leads st ! j)\<lparr>l_stage := stage, l_updatedAt := now\<rparr>
            else leads st ! j)
         \<and> l_id (leads (moveLead now i stage st) ! j) = l_id (leads st ! j)
         \<and> name (leads (moveLead now i stage st) ! j) = name (leads st ! j)
         \<and> company (leads (moveLead now i stage st) ! j) = company (leads st ! j)
         \<and> role (leads (moveLead now i stage st) ! j) = role (leads st ! j)
         \<and> l_value (leads (moveLead now i stage st) ! j) = l_value (leads st ! j)
         \<and> nextStep (leads (moveLead now i stage st) ! j) = nextStep (leads st ! j))
   \<and> (i \<notin> l_id ` set (leads st) \<longrightarrow> moveLead now i stage st = st)
   \<and> (moveLead now i stage st)\<lparr>leads := leads st\<rparr> = st
   \<and> remote (moveLead now i stage st) = remote st"
proof -
  have same: "i \<notin> l_id ` set ls \<Longrightarrow>
      map (\<lambda>l. if l_id l = i then l\<lparr>l_stage := stage, l_updatedAt := now\<rparr> else l) ls = ls"
    for ls :: "LeadItem list"
    by (induction ls) auto
  show ?thesis
    by (auto simp: moveLead_def same)
qed

theorem moveLead_frame_witness:
  "leads (moveLead 1700000000001 ''l2'' Won sample_local) ! 0 = sample_leads ! 0
   \<and> leads (moveLead 1700000000001 ''l2'' Won sample_local) ! 1 = (sample_leads ! 1)\<lparr>l_stage := Won, l_updatedAt := 1700000000001\<rparr>
   \<and> moveLead 1700000000001 ''l9'' Won sample_local = sample_local"
proof -
  have l: "leads sample_local = sample_leads"
    by (simp add: sample_local_def)
  have n: "''l9'' \<notin> l_id ` set (leads sample_local)"
    by (simp add: l sample_leads_def)
  have len: "length (leads sample_local) = 2"
    by (simp add: l sample_leads_def)
  have i0: "l_id (leads sample_local ! 0) \<noteq> ''l2''" and i1: "l_id (leads sample_local ! 1) = ''l2''"
    by (simp_all add: l sample_leads_def)
  from moveLead_frame [of 1700000000001 "''l2''" Won sample_local] len i0 i1
  have a: "leads (moveLead 1700000000001 ''l2'' Won sample_local) ! 0 = leads sample_local ! 0"
    and b: "leads (moveLead 1700000000001 ''l2'' Won sample_local) ! 1 =
        (leads sample_local ! 1)\<lparr>l_stage := Won, l_updatedAt := 1700000000001\<rparr>"
    by simp_all
  from moveLead_frame [of 1700000000001 "''l9''" Won sample_local] n
  have c: "moveLead 1700000000001 ''l9'' Won sample_local = sample_local"
    by blast
  show ?thesis using a b c by (simp add: l)
qed

subsection \<open>Identifiers\<close>

lemma hex_of_nat_nonempty: "hex_of_nat n \<noteq> []"
  by (subst hex_of_nat.simps) simp

lemma uid_nonempty: "uid rnd now \<noteq> []"
  by (simp add: uid_def toString16_def hex_of_nat_nonempty)

lemma hex_sample: "hex_of_nat 1700000000000 = ''18bcfe56800''"
  by (simp add: hex_of_nat.simps hex_digit_def)

lemma uid_sample: "uid ''0.8'' 1700000000000 = ''818bcfe56800''"
  by (simp add: uid_def toString16_def hex_sample)

lemma trim_nil: "trim [] = []"
  by code_simp

lemma trim_blank: "trim '' '' = []"
  by code_simp

lemma trim_Meera: "trim '' Meera '' = ''Meera''"
  by code_simp

lemma trim_Tata: "trim ''Tata'' = ''Tata''"
  by code_simp

lemma trim_2L: "trim ''2L'' = ''2L''"
  by code_simp

lemma trim_Ship: "trim '' Ship it '' = ''Ship it''"
  by code_simp

lemma trim_Orbit: "trim ''Orbit'' = ''Orbit''"
  by code_simp

lemma tags_sample: "parse_tags ''a, b,,'' = [''a'', ''b'']"
  by code_simp

text \<open>
  C9. \<open>addLead\<close> leaves the state as it is when the trimmed name or the trimmed company
  is empty. Otherwise it puts exactly one new lead in front of the existing leads, which
  stay as they are: stage \<open>lead\<close>, the generated id, the current time, the trimmed name
  and company, and role, value and next step absent when their trimmed text is empty.
\<close>

theorem addLead_spec:
  "(trim (nl_name (newLead st)) = [] \<or> trim (nl_company (newLead st)) = [] \<longrightarrow>
      addLead rnd t_uid now st = st)
   \<and> (trim (nl_name (newLead st)) \<noteq> [] \<and> trim (nl_company (newLead st)) \<noteq> [] \<longrightarrow>
      leads (addLead rnd t_uid now st) =
        \<lparr>l_id = uid rnd t_uid,
         name = trim (nl_name (newLead st)),
         company = trim (nl_company (newLead st)),
         role = (if trim (nl_role (newLead st)) = [] then None else Some (trim (nl_role (newLead st)))),
         l_stage = Lead,
         l_value = (if trim (nl_value (newLead st)) = [] then None else Some (trim (nl_value (newLead st)))),
         nextStep = (if trim (nl_nextStep (newLead st)) = [] then None
                     else Some (trim (nl_nextStep (newLead st)))),
         l_updatedAt = now\<rparr> # leads st
      \<and> remote (addLead rnd t_uid now st) = remote st
      \<and> tasks (addLead rnd t_uid now st) = tasks st)"
  by (simp add: addLead_def Let_def or_undefined_def)

theorem addLead_spec_witness:
  "leads (addLead ''0.8'' 1700000000000 1700000000001 sample_local) =
     \<lparr>l_id = ''818bcfe56800'', name = ''Meera'', company = ''Tata'', role = None, l_stage = Lead,
      l_value = Some ''2L'', nextStep = None, l_updatedAt = 1700000000001\<rparr> # sample_leads
   \<and> addLead ''0.8'' 1700000000000 1700000000001 (sample_local\<lparr>newLead := empty_newLead\<rparr>) =
       sample_local\<lparr>newLead := empty_newLead\<rparr>"
proof -
  have nl: "newLead sample_local = \<lparr>nl_name = '' Meera '', nl_company = ''Tata'', nl_role = '' '',
      nl_value = ''2L'', nl_nextStep = []\<rparr>" and l: "leads sample_local = sample_leads"
    by (simp_all add: sample_local_def)
  have a: "leads (addLead ''0.8'' 1700000000000 1700000000001 sample_local) =
     \<lparr>l_id = ''818bcfe56800'', name = ''Meera'', company = ''Tata'', role = None, l_stage = Lead,
      l_value = Some ''2L'', nextStep = None, l_updatedAt = 1700000000001\<rparr> # sample_leads"
    using addLead_spec [of sample_local "''0.8''" 1700000000000 1700000000001]
    by (simp add: nl l trim_Meera trim_Tata trim_blank trim_2L trim_nil uid_sample)
  have b: "addLead ''0.8'' 1700000000000 1700000000001 (sample_local\<lparr>newLead := empty_newLead\<rparr>) =
       sample_local\<lparr>newLead := empty_newLead\<rparr>"
    using addLead_spec [of "sample_local\<lparr>newLead := empty_newLead\<rparr>" "''0.8''" 1700000000000 1700000000001]
    by (simp add: empty_newLead_def trim_nil)
  show ?thesis using a b by simp
qed

subsection \<open>Task mutations\<close>

lemma find_move_in:
  "find (\<lambda>t. t_id t = i) (move_in now i stage tsk) =
     map_option (\<lambda>t. t\<lparr>t_stage := stage, t_updatedAt := now\<rparr>) (find (\<lambda>t. t_id t = i) tsk)"
  by (induction tsk) (auto simp: move_in_def)

text \<open>
  The rollback of \<open>moveTask\<close>. With a workspace (so that the remote update is issued),
  a move to stage \<open>B\<close> whose remote update returns an error ends with the task list it
  started from: the task found under the id has the stage and the time of update it had
  before, although the optimistic step had set its stage to \<open>B\<close>; the message is written
  to \<open>dbError\<close>, and only the update was sent to the remote store.
\<close>

lemma moveTask_rollback:
  assumes "truthy (workspaceId st)"
  shows "tasks (moveTask now i B (Some e) st) = tasks st
    \<and> (\<forall>t. find (\<lambda>t. t_id t = i) (tasks st) = Some t \<longrightarrow>
          find (\<lambda>t. t_id t = i) (tasks (moveTask now i B (Some e) st)) = Some t
          \<and> find (\<lambda>t. t_id t = i) (move_in now i B (tasks st)) =
              Some (t\<lparr>t_stage := B, t_updatedAt := now\<rparr>))
    \<and> dbError (moveTask now i B (Some e) st) =
        (case e of ErrorInstance msg \<Rightarrow> msg | OtherValue v \<Rightarrow> ''Failed to update mission'')
    \<and> remote (moveTask now i B (Some e) st) =
        remote st @ [UpdateMissionStatus i (taskStageToMissionStatus B)]"
  using assms by (simp add: moveTask_def Let_def error_message_def find_move_in)

text \<open>
  C1. A \<open>moveTask\<close> whose remote update fails restores the task list, so the task keeps
  its stage and its time of update, but no error string reaches the view: the message is
  written to \<open>dbError\<close> only, which nothing renders, and the error strings the component
  shows are the same after any \<open>moveTask\<close> as before it. At a move of the second sample
  task to \<open>done\<close> that the remote store refuses with "permission denied", the tasks are
  the tasks before the move, \<open>dbError\<close> holds the message, and no error string is shown.
\<close>

theorem moveTask_error_not_shown:
  "shown_errors (moveTask now i B resp st) = shown_errors st
   \<and> truthy (workspaceId sample_remote)
   \<and> tasks (moveTask 1700000000001 ''t2'' Done (Some (ErrorInstance ''permission denied''))
        sample_remote) = tasks sample_remote
   \<and> find (\<lambda>t. t_id t = ''t2'')
        (tasks (moveTask 1700000000001 ''t2'' Done (Some (ErrorInstance ''permission denied''))
           sample_remote)) = Some (sample_tasks ! 1)
   \<and> t_stage (sample_tasks ! 1) = Assigned
   \<and> dbError (moveTask 1700000000001 ''t2'' Done (Some (ErrorInstance ''permission denied''))
        sample_remote) = ''permission denied''
   \<and> shown_errors (moveTask 1700000000001 ''t2'' Done (Some (ErrorInstance ''permission denied''))
        sample_remote) = []"
proof -
  have frame: "shown_errors (moveTask now i B resp st) = shown_errors st"
    by (simp add: moveTask_def shown_errors_def Let_def split: option.splits)
  have w: "truthy (workspaceId sample_remote)"
    by (simp add: sample_remote_def truthy_def)
  have t: "tasks sample_remote = sample_tasks"
    by (simp add: sample_remote_def sample_local_def)
  have r: "tasks (moveTask 1700000000001 ''t2'' Done (Some (ErrorInstance ''permission denied''))
        sample_remote) = tasks sample_remote"
    using w by (simp add: moveTask_def Let_def)
  have f: "find (\<lambda>t. t_id t = ''t2'') (tasks sample_remote) = Some (sample_tasks ! 1)"
    by (simp add: t sample_tasks_def)
  have a: "t_stage (sample_tasks ! 1) = Assigned"
    by (simp add: sample_tasks_def)
  have d: "dbError (moveTask 1700000000001 ''t2'' Done (Some (ErrorInstance ''permission denied''))
        sample_remote) = ''permission denied''"
    using w by (simp add: moveTask_def Let_def error_message_def)
  have n: "shown_errors sample_remote = []"
    by (simp add: shown_errors_def sample_remote_def sample_local_def)
  have v: "shown_errors (moveTask 1700000000001 ''t2'' Done (Some (ErrorInstance ''permission denied''))
        sample_remote) = []"
    by (simp add: moveTask_def shown_errors_def Let_def sample_remote_def sample_local_def
        split: option.splits)
  show ?thesis
    using frame w r f a d v by simp
qed

text \<open>
  C6, as amended. For a title that is not empty after trimming: without a workspace or
  user the call issues no remote call, and then, as when the remote insert returns an
  error, it puts exactly one new task in front of the tasks: stage \<open>inbox\<close>, the trimmed
  title, the id \<open>uid()\<close> generates locally, which is not empty, and the current time; an
  insert error is stored in \<open>dbError\<close>. The id is not checked against the ids of the
  existing tasks.
\<close>

theorem addTask_fallback:
  assumes "trim (nt_title (newTask st)) \<noteq> []"
  shows "(\<not> (truthy (workspaceId st) \<and> truthy (profileId st)) \<longrightarrow>
             tasks (addTask rnd t_uid now resp st) =
               \<lparr>t_id = uid rnd t_uid,
                title = trim (nt_title (newTask st)),
                desc = (if trim (nt_desc (newTask st)) = [] then None else Some (trim (nt_desc (newTask st)))),
                t_stage = Inbox,
                tags = (if parse_tags (nt_tags (newTask st)) = [] then None
                        else Some (parse_tags (nt_tags (newTask st)))),
                assignee = (if trim (nt_assignee (newTask st)) = [] then None
                            else Some (trim (nt_assignee (newTask st)))),
                t_updatedAt = now\<rparr> # tasks st
           \<and> remote (addTask rnd t_uid now resp st) = remote st)
     \<and> tasks (addTask rnd t_uid now (Inl e) st) =
               \<lparr>t_id = uid rnd t_uid,
                title = trim (nt_title (newTask st)),
                desc = (if trim (nt_desc (newTask st)) = [] then None else Some (trim (nt_desc (newTask st)))),
                t_stage = Inbox,
                tags = (if parse_tags (nt_tags (newTask st)) = [] then None
                        else Some (parse_tags (nt_tags (newTask st)))),
                assignee = (if trim (nt_assignee (newTask st)) = [] then None
                            else Some (trim (nt_assignee (newTask st)))),
                t_updatedAt = now\<rparr> # tasks st
     \<and> (truthy (workspaceId st) \<and> truthy (profileId st) \<longrightarrow>
          dbError (addTask rnd t_uid now (Inl e) st) =
            (case e of ErrorInstance msg \<Rightarrow> msg | OtherValue v \<Rightarrow> ''Failed to add mission''))
     \<and> uid rnd t_uid \<noteq> []"
  using assms
  by (simp add: addTask_def addTask_local_def Let_def or_undefined_def error_message_def uid_nonempty)

theorem addTask_fallback_witness:
  "tasks (addTask ''0.8'' 1700000000000 1700000000001 (Inl (OtherValue ''unused'')) sample_local) =
     \<lparr>t_id = ''818bcfe56800'', title = ''Ship it'', desc = None, t_stage = Inbox, tags = Some [''a'', ''b''],
      assignee = Some ''Orbit'', t_updatedAt = 1700000000001\<rparr> # sample_tasks
   \<and> tasks (addTask ''0.8'' 1700000000000 1700000000001 (Inl (ErrorInstance ''insert failed'')) sample_remote) =
     \<lparr>t_id = ''818bcfe56800'', title = ''Ship it'', desc = None, t_stage = Inbox, tags = Some [''a'', ''b''],
      assignee = Some ''Orbit'', t_updatedAt = 1700000000001\<rparr> # sample_tasks
   \<and> dbError (addTask ''0.8'' 1700000000000 1700000000001 (Inl (ErrorInstance ''insert failed'')) sample_remote) =
       ''insert failed''"
proof -
  have nt: "newTask sample_local =
      \<lparr>nt_title = '' Ship it '', nt_desc = [], nt_assignee = ''Orbit'', nt_tags = ''a, b,,''\<rparr>"
    and nt': "newTask sample_remote = newTask sample_local"
    and t: "tasks sample_local = sample_tasks" "tasks sample_remote = sample_tasks"
    by (simp_all add: sample_local_def sample_remote_def)
  have ttl: "trim (nt_title (newTask sample_local)) \<noteq> []"
    "trim (nt_title (newTask sample_remote)) \<noteq> []"
    by (simp_all add: nt nt' trim_Ship)
  have ctx: "\<not> (truthy (workspaceId sample_local) \<and> truthy (profileId sample_local))"
    "truthy (workspaceId sample_remote) \<and> truthy (profileId sample_remote)"
    by (simp_all add: sample_local_def sample_remote_def truthy_def)
  show ?thesis
    using addTask_fallback [OF ttl(1), of "''0.8''" 1700000000000 1700000000001 "Inl (OtherValue ''unused'')"]
      addTask_fallback [OF ttl(2), of "''0.8''" 1700000000000 1700000000001 _ "ErrorInstance ''insert failed''"] ctx
    by (simp add: nt nt' t trim_Ship trim_nil trim_Orbit tags_sample uid_sample)
qed

text \<open>
  The id is unique only as far as the random number and the clock differ: with one half
  as the random number at clock 1700000000000 the new task gets the id \<open>818bcfe56800\<close>, which the first
  sample task already has.
\<close>

theorem addTask_id_collision:
  "trim (nt_title (newTask sample_local)) \<noteq> []
   \<and> \<not> truthy (workspaceId sample_local)
   \<and> t_id (hd (tasks (addTask ''0.8'' 1700000000000 1700000000001 (Inl (ErrorInstance ''insert failed'')) sample_local)))
       = t_id (hd (tasks sample_local))
   \<and> length (tasks (addTask ''0.8'' 1700000000000 1700000000001 (Inl (ErrorInstance ''insert failed'')) sample_local))
       = length (tasks sample_local) + 1
   \<and> \<not> distinct (map t_id (tasks (addTask ''0.8'' 1700000000000 1700000000001 (Inl (ErrorInstance ''insert failed''))
         sample_local)))"
  by (simp add: addTask_def addTask_local_def Let_def sample_local_def sample_tasks_def truthy_def
      trim_Ship uid_sample)

subsection \<open>The mission events feed\<close>

text \<open>
  C7. Without a workspace the effect empties the event list and shows "Waiting for
  workspace..." in place of the feed, without issuing a query. When a query of a live
  effect fails, the tick empties the event list, so that the events shown before are not
  kept, and stores the error string in \<open>eventsError\<close>, which the feed renders.
\<close>

theorem missionEvents_failure:
  "(\<not> truthy (workspaceId st) \<longrightarrow>
       events (missionEventsEffect alive resp st) = []
     \<and> eventsError (missionEventsEffect alive resp st) = ''Waiting for workspace...''
     \<and> ''Waiting for workspace...'' \<in> set (shown_errors (missionEventsEffect alive resp st))
     \<and> remote (missionEventsEffect alive resp st) = remote st)
   \<and> (alive \<longrightarrow>
       events (tickMissionEvents alive (Inl e) st) = []
     \<and> eventsError (tickMissionEvents alive (Inl e) st) =
         (case e of ErrorInstance msg \<Rightarrow> msg | OtherValue str \<Rightarrow> str)
     \<and> (eventsError (tickMissionEvents alive (Inl e) st) \<noteq> [] \<longrightarrow>
          eventsError (tickMissionEvents alive (Inl e) st) \<in>
            set (shown_errors (tickMissionEvents alive (Inl e) st)))
     \<and> (truthy (workspaceId st) \<longrightarrow>
          missionEventsEffect alive (Inl e) st = tickMissionEvents alive (Inl e) st))"
  by (simp add: missionEventsEffect_def tickMissionEvents_def shown_errors_def Let_def)

theorem missionEvents_failure_witness:
  "events (missionEventsEffect True (Inr None) sample_local) = []
   \<and> eventsError (missionEventsEffect True (Inr None) sample_local) = ''Waiting for workspace...''
   \<and> events (missionEventsEffect True (Inl (ErrorInstance ''fetch failed'')) sample_remote) = []
   \<and> eventsError (missionEventsEffect True (Inl (ErrorInstance ''fetch failed'')) sample_remote) =
       ''fetch failed''
   \<and> ''fetch failed'' \<in>
       set (shown_errors (missionEventsEffect True (Inl (ErrorInstance ''fetch failed'')) sample_remote))"
proof -
  have n: "\<not> truthy (workspaceId sample_local)"
    by (simp add: sample_local_def truthy_def)
  have w: "truthy (workspaceId sample_remote)"
    by (simp add: sample_remote_def truthy_def)
  note waiting = missionEvents_failure [of sample_local True "Inr None"]
  note failing = missionEvents_failure [of sample_remote True _ "ErrorInstance ''fetch failed''"]
  have 1: "events (missionEventsEffect True (Inr None) sample_local) = []"
    and 2: "eventsError (missionEventsEffect True (Inr None) sample_local) = ''Waiting for workspace...''"
    using waiting n by simp_all
  have eq: "missionEventsEffect True (Inl (ErrorInstance ''fetch failed'')) sample_remote =
      tickMissionEvents True (Inl (ErrorInstance ''fetch failed'')) sample_remote"
    using failing w by simp
  have 3: "events (tickMissionEvents True (Inl (ErrorInstance ''fetch failed'')) sample_remote) = []"
    and 4: "eventsError (tickMissionEvents True (Inl (ErrorInstance ''fetch failed'')) sample_remote) =
      ''fetch failed''"
    using failing by simp_all
  have "eventsError (tickMissionEvents True (Inl (ErrorInstance ''fetch failed'')) sample_remote) \<noteq> [] \<longrightarrow>
      eventsError (tickMissionEvents True (Inl (ErrorInstance ''fetch failed'')) sample_remote) \<in>
        set (shown_errors (tickMissionEvents True (Inl (ErrorInstance ''fetch failed'')) sample_remote))"
    using failing by blast
  then have 5: "''fetch failed'' \<in>
      set (shown_errors (tickMissionEvents True (Inl (ErrorInstance ''fetch failed'')) sample_remote))"
    by (simp add: 4)
  show ?thesis
    using 1 2 3 4 5 by (simp add: eq)
qed

subsection \<open>Nickname assignment\<close>

lemma guess_in_pool:
  "guessNickname_in pool s = Some n \<Longrightarrow> n \<in> set pool \<and> str_includes (hay s) (toLowerCase n)"
  by (auto simp: guessNickname_in_def find_Some_iff)

lemma guess_exists:
  "n \<in> set pool \<Longrightarrow> str_includes (hay s) (toLowerCase n) \<Longrightarrow> \<exists>g. guessNickname_in pool s = Some g"
  by (cases "guessNickname_in pool s") (auto simp: guessNickname_in_def find_None_iff)

lemma explicit_pass_ran:
  "ran m \<subseteq> Some ` (set pool - {[]}) \<Longrightarrow> ran (explicit_pass pool ss m) \<subseteq> Some ` (set pool - {[]})"
proof (induction ss arbitrary: m)
  case Nil
  then show ?case by simp
next
  case (Cons s ss)
  show ?case
  proof (cases "truthy (guessNickname_in pool s)")
    case True
    then obtain n where n: "guessNickname_in pool s = Some n" "n \<noteq> []"
      by (auto simp: truthy_def split: option.splits)
    then have "n \<in> set pool" using guess_in_pool by blast
    with n Cons.prems have "ran (m(key s \<mapsto> Some n)) \<subseteq> Some ` (set pool - {[]})"
      by (auto simp: ran_def)
    then show ?thesis using Cons.IH True n by simp
  next
    case False
    then show ?thesis using Cons by simp
  qed
qed

lemma recency_fill_ran:
  assumes "pool \<noteq> []" "[] \<notin> set pool"
  shows "ran m \<subseteq> Some ` (set pool - {[]}) \<Longrightarrow>
         ran (recency_fill pool ss i m) \<subseteq> Some ` (set pool - {[]})"
proof (induction ss arbitrary: i m)
  case Nil
  then show ?case by simp
next
  case (Cons s ss)
  have lt: "i mod length pool < length pool" using assms(1) by simp
  then have "pool ! (i mod length pool) \<in> set pool" by simp
  with assms(2) have "pool_at pool (i mod length pool) \<in> Some ` (set pool - {[]})"
    using lt by (auto simp: pool_at_def)
  with Cons.prems have "ran (m(key s \<mapsto> pool_at pool (i mod length pool))) \<subseteq> Some ` (set pool - {[]})"
    by (auto simp: ran_def)
  then have "ran (recency_fill pool ss (i + 1) (m(key s \<mapsto> pool_at pool (i mod length pool))))
      \<subseteq> Some ` (set pool - {[]})"
    by (rule Cons.IH)
  moreover have "ran (recency_fill pool ss i m) \<subseteq> Some ` (set pool - {[]})"
    using Cons.prems by (rule Cons.IH)
  ultimately show ?case by simp
qed

lemma recency_fill_keeps: "m k = Some v \<Longrightarrow> recency_fill pool ss i m k = Some v"
proof (induction ss arbitrary: i m)
  case Nil
  then show ?case by simp
next
  case (Cons a ss)
  show ?case
  proof (cases "m (key a)")
    case None
    with Cons.prems have "(m(key a \<mapsto> pool_at pool (i mod length pool))) k = Some v"
      by auto
    then have "recency_fill pool ss (i + 1) (m(key a \<mapsto> pool_at pool (i mod length pool))) k = Some v"
      by (rule Cons.IH)
    with None show ?thesis by simp
  next
    case (Some w)
    with Cons show ?thesis by simp
  qed
qed

lemma recency_fill_covers: "s \<in> set ss \<Longrightarrow> recency_fill pool ss i m (key s) \<noteq> None"
proof (induction ss arbitrary: i m)
  case Nil
  then show ?case by simp
next
  case (Cons x xs)
  show ?case
  proof (cases "s = x")
    case True
    show ?thesis
    proof (cases "m (key x)")
      case None
      have "recency_fill pool xs (i + 1) (m(key x \<mapsto> pool_at pool (i mod length pool))) (key x) =
            Some (pool_at pool (i mod length pool))"
        by (rule recency_fill_keeps) simp
      with None True show ?thesis by simp
    next
      case (Some v)
      then have "recency_fill pool xs i m (key x) = Some v" by (rule recency_fill_keeps)
      with Some True show ?thesis by simp
    qed
  next
    case False
    with Cons show ?thesis by simp
  qed
qed

lemma explicit_pass_value:
  assumes "\<forall>t \<in> set ss. key t = k \<and> truthy (guessNickname_in pool t) \<longrightarrow> guessNickname_in pool t = g"
    and "m k = Some g \<or> (\<exists>t \<in> set ss. key t = k \<and> truthy (guessNickname_in pool t))"
  shows "explicit_pass pool ss m k = Some g"
  using assms
proof (induction ss arbitrary: m)
  case Nil
  then show ?case by simp
next
  case (Cons x xs)
  let ?m = "if truthy (guessNickname_in pool x) then m(key x \<mapsto> guessNickname_in pool x) else m"
  have 1: "\<forall>t \<in> set xs. key t = k \<and> truthy (guessNickname_in pool t) \<longrightarrow> guessNickname_in pool t = g"
    using Cons.prems(1) by simp
  have 2: "?m k = Some g \<or> (\<exists>t \<in> set xs. key t = k \<and> truthy (guessNickname_in pool t))"
    using Cons.prems by auto
  have "explicit_pass pool xs ?m k = Some g"
    using 1 2 by (rule Cons.IH [of ?m])
  then show ?case by simp
qed

lemma recency_fill_skip:
  "\<forall>t \<in> set pre. m (key t) \<noteq> None \<Longrightarrow> recency_fill pool (pre @ rest) i m = recency_fill pool rest i m"
  by (induction pre) auto

lemma recency_fill_first:
  assumes "\<forall>t \<in> set pre. m (key t) \<noteq> None" and "m (key s) = None"
  shows "recency_fill pool (pre @ s # post) 0 m (key s) = Some (pool_at pool 0)"
proof -
  have "recency_fill pool (pre @ s # post) 0 m = recency_fill pool (s # post) 0 m"
    using assms(1) by (rule recency_fill_skip)
  moreover have "recency_fill pool post (0 + 1) (m(key s \<mapsto> pool_at pool 0)) (key s) =
      Some (pool_at pool 0)"
    by (rule recency_fill_keeps) simp
  ultimately show ?thesis using assms(2) by simp
qed

lemma bindings_in_pool:
  assumes "pool \<noteq> []" "[] \<notin> set pool" "s \<in> set ss"
  shows "\<exists>n. bindings_in pool ss (key s) = Some (Some n) \<and> n \<in> set pool \<and> n \<noteq> []"
proof -
  have "ran (explicit_pass pool ss Map.empty) \<subseteq> Some ` (set pool - {[]})"
    by (rule explicit_pass_ran) simp
  then have r: "ran (bindings_in pool ss) \<subseteq> Some ` (set pool - {[]})"
    unfolding bindings_in_def by (rule recency_fill_ran [OF assms(1,2)])
  have "s \<in> set (sorted_sessions ss)"
    using assms(3) by (simp add: sorted_sessions_def)
  then have "bindings_in pool ss (key s) \<noteq> None"
    unfolding bindings_in_def by (rule recency_fill_covers)
  then obtain v where v: "bindings_in pool ss (key s) = Some v" by auto
  then have "v \<in> ran (bindings_in pool ss)" by (auto simp: ran_def)
  with r v show ?thesis by auto
qed

lemma nickname_in_pool:
  assumes "pool \<noteq> []" "[] \<notin> set pool" "s \<in> set ss"
  shows "nickname_of (bindings_in pool ss) s \<in> set pool"
  using bindings_in_pool [OF assms] by (auto simp: nickname_of_def)

lemma nickname_explicit:
  assumes "s \<in> set ss" "guessNickname_in pool s = Some g" "g \<noteq> []"
    and "\<forall>t \<in> set ss. key t = key s \<longrightarrow>
           guessNickname_in pool t = None \<or> guessNickname_in pool t = guessNickname_in pool s"
  shows "nickname_of (bindings_in pool ss) s = g"
proof -
  have t: "truthy (guessNickname_in pool s)" using assms(2,3) by (simp add: truthy_def)
  have "explicit_pass pool ss Map.empty (key s) = Some (Some g)"
  proof (rule explicit_pass_value)
    show "\<forall>t \<in> set ss. key t = key s \<and> truthy (guessNickname_in pool t) \<longrightarrow>
            guessNickname_in pool t = Some g"
      using assms(2,4) by (auto simp: truthy_def)
    show "Map.empty (key s) = Some (Some g) \<or>
          (\<exists>t \<in> set ss. key t = key s \<and> truthy (guessNickname_in pool t))"
      using assms(1) t by auto
  qed
  then have "bindings_in pool ss (key s) = Some (Some g)"
    unfolding bindings_in_def by (rule recency_fill_keeps)
  then show ?thesis using assms(3) by (simp add: nickname_of_def)
qed

lemma AGENT_NICKNAMES_nonempty: "AGENT_NICKNAMES \<noteq> [] \<and> [] \<notin> set AGENT_NICKNAMES"
  by (simp add: AGENT_NICKNAMES_def)

lemma withNicknames_nth:
  "j < length ss \<Longrightarrow>
     withNicknames_in pool ss ! j = (ss ! j, nickname_of (bindings_in pool ss) (ss ! j))"
  by (simp add: withNicknames_in_def)

lemma scenario_two_pool:
  "map (\<lambda>p. (key (fst p), snd p)) (withNicknames_in [''Orbit'', ''Forge''] [session_a, session_b]) =
     [(''a'', ''Orbit''), (''b'', ''Orbit'')]"
  by code_simp

lemma scenario_fixed_pool:
  "map (\<lambda>p. (key (fst p), snd p)) (withNicknames [session_a, session_b]) =
     [(''a'', ''Orbit''), (''b'', ''Orbit'')]"
  by code_simp

lemma scenario_sorted: "sorted_sessions [session_a, session_b] = [session_b, session_a]"
  by code_simp

lemma scenario_explicit:
  "explicit_pass [''Orbit'', ''Forge''] [session_a, session_b] Map.empty (key session_b) = None"
  by code_simp

lemma guess_session_a: "guessNickname session_a = Some ''Orbit''"
  by code_simp

lemma includes_session_a: "str_includes (hay session_a) (toLowerCase ''Orbit'')"
  by code_simp

lemma guess_dup_orbit: "guessNickname dup_orbit = Some ''Orbit''"
  by code_simp

lemma includes_dup_orbit: "str_includes (hay dup_orbit) (toLowerCase ''Orbit'')"
  by code_simp

lemma duplicate_key_eval: "map snd (withNicknames [dup_orbit, dup_forge]) = [''Forge'', ''Forge'']"
  by code_simp

text \<open>
  C2, as amended. \<open>withNicknames\<close> returns the sessions in their order, each with one
  name of the pool. A session whose text contains a pool name, in any letter case, has an
  explicit match (the first pool name its text contains) and keeps it, whatever the times
  of update are, provided that no session with the same key has a different explicit
  match; in particular when the keys of the sessions are pairwise distinct.
\<close>

theorem withNicknames_binding:
  "map fst (withNicknames ss) = ss
   \<and> (\<forall>j < length ss. snd (withNicknames ss ! j) \<in> set AGENT_NICKNAMES)
   \<and> (\<forall>j < length ss. \<forall>n \<in> set AGENT_NICKNAMES.
         str_includes (hay (ss ! j)) (toLowerCase n) \<and>
         (\<forall>t \<in> set ss. key t = key (ss ! j) \<longrightarrow>
            guessNickname t = None \<or> guessNickname t = guessNickname (ss ! j)) \<longrightarrow>
         (\<exists>g. guessNickname (ss ! j) = Some g \<and> str_includes (hay (ss ! j)) (toLowerCase g) \<and>
              snd (withNicknames ss ! j) = g))
   \<and> (distinct (map key ss) \<longrightarrow>
        (\<forall>j < length ss. \<forall>g. guessNickname (ss ! j) = Some g \<longrightarrow> snd (withNicknames ss ! j) = g))"
proof -
  note ne = AGENT_NICKNAMES_nonempty
  have fst: "map fst (withNicknames ss) = ss"
    by (simp add: withNicknames_def withNicknames_in_def comp_def)
  have explicit: "snd (withNicknames ss ! j) = g"
    if j: "j < length ss" and g: "guessNickname (ss ! j) = Some g"
      and same: "\<forall>t \<in> set ss. key t = key (ss ! j) \<longrightarrow>
            guessNickname t = None \<or> guessNickname t = guessNickname (ss ! j)" for j g
  proof -
    have "g \<in> set AGENT_NICKNAMES"
      using g guess_in_pool unfolding guessNickname_def by blast
    then have "g \<noteq> []" using ne by auto
    then have "nickname_of (bindings_in AGENT_NICKNAMES ss) (ss ! j) = g"
      using nickname_explicit [of "ss ! j" ss AGENT_NICKNAMES g] j g same
      unfolding guessNickname_def by simp
    then show ?thesis using j by (simp add: withNicknames_def withNicknames_nth)
  qed
  have pool: "\<forall>j < length ss. snd (withNicknames ss ! j) \<in> set AGENT_NICKNAMES"
    using ne by (simp add: withNicknames_def withNicknames_nth nickname_in_pool)
  have matched: "\<forall>j < length ss. \<forall>n \<in> set AGENT_NICKNAMES.
         str_includes (hay (ss ! j)) (toLowerCase n) \<and>
         (\<forall>t \<in> set ss. key t = key (ss ! j) \<longrightarrow>
            guessNickname t = None \<or> guessNickname t = guessNickname (ss ! j)) \<longrightarrow>
         (\<exists>g. guessNickname (ss ! j) = Some g \<and> str_includes (hay (ss ! j)) (toLowerCase g) \<and>
              snd (withNicknames ss ! j) = g)"
  proof (intro allI impI ballI)
    fix j n
    assume j: "j < length ss" and n: "n \<in> set AGENT_NICKNAMES"
      and h: "str_includes (hay (ss ! j)) (toLowerCase n) \<and>
         (\<forall>t \<in> set ss. key t = key (ss ! j) \<longrightarrow>
            guessNickname t = None \<or> guessNickname t = guessNickname (ss ! j))"
    from n h obtain g where g: "guessNickname (ss ! j) = Some g"
      using guess_exists unfolding guessNickname_def by blast
    then have "str_includes (hay (ss ! j)) (toLowerCase g)"
      using guess_in_pool unfolding guessNickname_def by blast
    moreover have "snd (withNicknames ss ! j) = g"
      using explicit [OF j g] h by blast
    ultimately show "\<exists>g. guessNickname (ss ! j) = Some g \<and>
        str_includes (hay (ss ! j)) (toLowerCase g) \<and> snd (withNicknames ss ! j) = g"
      using g by blast
  qed
  have dist: "distinct (map key ss) \<longrightarrow>
        (\<forall>j < length ss. \<forall>g. guessNickname (ss ! j) = Some g \<longrightarrow> snd (withNicknames ss ! j) = g)"
  proof (intro allI impI)
    fix j g
    assume d: "distinct (map key ss)" and j: "j < length ss"
      and g: "guessNickname (ss ! j) = Some g"
    have "inj_on key (set ss)" using d by (simp add: distinct_map)
    then have "\<forall>t \<in> set ss. key t = key (ss ! j) \<longrightarrow> t = ss ! j"
      using j by (auto dest: inj_onD)
    then have "\<forall>t \<in> set ss. key t = key (ss ! j) \<longrightarrow>
            guessNickname t = None \<or> guessNickname t = guessNickname (ss ! j)"
      by auto
    then show "snd (withNicknames ss ! j) = g" by (rule explicit [OF j g])
  qed
  show ?thesis using fst pool matched dist by blast
qed

theorem withNicknames_binding_witness:
  "map fst (withNicknames [session_a, session_b]) = [session_a, session_b]
   \<and> snd (withNicknames [session_a, session_b] ! 0) = ''Orbit''
   \<and> (\<exists>g. guessNickname session_a = Some g \<and> str_includes (hay session_a) (toLowerCase g) \<and>
          snd (withNicknames [session_a, session_b] ! 0) = g)
   \<and> snd (withNicknames [session_a, session_b] ! 1) \<in> set AGENT_NICKNAMES"
proof -
  have d: "distinct (map key [session_a, session_b])"
    by (simp add: session_a_def session_b_def)
  have g: "guessNickname ([session_a, session_b] ! 0) = Some ''Orbit''"
    by (simp add: guess_session_a)
  have n: "''Orbit'' \<in> set AGENT_NICKNAMES"
    by (simp add: AGENT_NICKNAMES_def)
  have same: "\<forall>t \<in> set [session_a, session_b]. key t = key ([session_a, session_b] ! 0) \<longrightarrow>
      guessNickname t = None \<or> guessNickname t = guessNickname ([session_a, session_b] ! 0)"
    by (simp add: session_a_def session_b_def)
  note w = withNicknames_binding [of "[session_a, session_b]"]
  have 1: "map fst (withNicknames [session_a, session_b]) = [session_a, session_b]"
    using w by blast
  have "\<forall>j < length [session_a, session_b]. \<forall>g.
      guessNickname ([session_a, session_b] ! j) = Some g \<longrightarrow>
      snd (withNicknames [session_a, session_b] ! j) = g"
    using w d by blast
  then have 2: "snd (withNicknames [session_a, session_b] ! 0) = ''Orbit''"
    using g by simp
  have "\<forall>j < length [session_a, session_b]. \<forall>n \<in> set AGENT_NICKNAMES.
      str_includes (hay ([session_a, session_b] ! j)) (toLowerCase n) \<and>
      (\<forall>t \<in> set [session_a, session_b]. key t = key ([session_a, session_b] ! j) \<longrightarrow>
         guessNickname t = None \<or> guessNickname t = guessNickname ([session_a, session_b] ! j)) \<longrightarrow>
      (\<exists>g. guessNickname ([session_a, session_b] ! j) = Some g \<and>
           str_includes (hay ([session_a, session_b] ! j)) (toLowerCase g) \<and>
           snd (withNicknames [session_a, session_b] ! j) = g)"
    using w by blast
  moreover have "0 < length [session_a, session_b]"
    by simp
  moreover have "str_includes (hay ([session_a, session_b] ! 0)) (toLowerCase ''Orbit'')"
    by (simp add: includes_session_a)
  ultimately have "\<exists>g. guessNickname ([session_a, session_b] ! 0) = Some g \<and>
      str_includes (hay ([session_a, session_b] ! 0)) (toLowerCase g) \<and>
      snd (withNicknames [session_a, session_b] ! 0) = g"
    using n same by blast
  then have 3: "\<exists>g. guessNickname session_a = Some g \<and> str_includes (hay session_a) (toLowerCase g) \<and>
      snd (withNicknames [session_a, session_b] ! 0) = g"
    by simp
  have "\<forall>j < length [session_a, session_b].
      snd (withNicknames [session_a, session_b] ! j) \<in> set AGENT_NICKNAMES"
    using w by blast
  then have 4: "snd (withNicknames [session_a, session_b] ! 1) \<in> set AGENT_NICKNAMES"
    by simp
  show ?thesis using 1 2 3 4 by blast
qed

text \<open>
  The binding is a map from keys: of two sessions with one key, the later explicit match
  overwrites the earlier, and the session whose text contains "Orbit" is shown as Forge.
\<close>

theorem withNicknames_duplicate_key:
  "''Orbit'' \<in> set AGENT_NICKNAMES
   \<and> str_includes (hay dup_orbit) (toLowerCase ''Orbit'')
   \<and> guessNickname dup_orbit = Some ''Orbit''
   \<and> map snd (withNicknames [dup_orbit, dup_forge]) = [''Forge'', ''Forge'']
   \<and> snd (withNicknames [dup_orbit, dup_forge] ! 0) \<noteq> ''Orbit''"
proof -
  have "snd (withNicknames [dup_orbit, dup_forge] ! 0) = map snd (withNicknames [dup_orbit, dup_forge]) ! 0"
    by (simp add: withNicknames_def withNicknames_in_def)
  then have "snd (withNicknames [dup_orbit, dup_forge] ! 0) \<noteq> ''Orbit''"
    by (simp add: duplicate_key_eval)
  then show ?thesis
    by (simp add: AGENT_NICKNAMES_def includes_dup_orbit guess_dup_orbit duplicate_key_eval)
qed

text \<open>
  C3, as amended. For the two sessions of the scenario and the pool Orbit, Forge (and for
  the pool of the source) the binding is a: Orbit, b: Orbit. The counter of the recency
  pass starts at 0 and moves only at sessions without an explicit match, so the most
  recent session without a match gets the first name of the pool, whether or not an
  explicit match has taken that name.
\<close>

theorem recency_fill_from_first_slot:
  "map (\<lambda>p. (key (fst p), snd p)) (withNicknames_in [''Orbit'', ''Forge''] [session_a, session_b]) =
     [(''a'', ''Orbit''), (''b'', ''Orbit'')]
   \<and> map (\<lambda>p. (key (fst p), snd p)) (withNicknames [session_a, session_b]) =
     [(''a'', ''Orbit''), (''b'', ''Orbit'')]
   \<and> (sorted_sessions ss = pre @ s # post \<and>
      (\<forall>t \<in> set pre. explicit_pass (p # ps) ss Map.empty (key t) \<noteq> None) \<and>
      explicit_pass (p # ps) ss Map.empty (key s) = None \<longrightarrow>
      bindings_in (p # ps) ss (key s) = Some (Some p))"
proof -
  have "bindings_in (p # ps) ss (key s) = Some (Some p)"
    if "sorted_sessions ss = pre @ s # post"
      and "\<forall>t \<in> set pre. explicit_pass (p # ps) ss Map.empty (key t) \<noteq> None"
      and "explicit_pass (p # ps) ss Map.empty (key s) = None"
    using recency_fill_first [OF that(2,3), of "p # ps" post] that(1)
    by (simp add: bindings_in_def pool_at_def)
  then show ?thesis
    using scenario_two_pool scenario_fixed_pool by blast
qed

theorem recency_fill_from_first_slot_witness:
  "bindings_in [''Orbit'', ''Forge''] [session_a, session_b] (key session_b) = Some (Some ''Orbit'')"
proof -
  have s: "sorted_sessions [session_a, session_b] = [] @ session_b # [session_a]"
    by (simp add: scenario_sorted)
  show ?thesis
    using recency_fill_from_first_slot [of "[session_a, session_b]" "[]" session_b "[session_a]"
        "''Orbit''" "[''Forge'']"] s scenario_explicit
    by simp
qed

text \<open>Session b of the scenario is bound to Orbit, not to Forge.\<close>

theorem scenario_b_gets_Orbit:
  "snd (withNicknames_in [''Orbit'', ''Forge''] [session_a, session_b] ! 1) = ''Orbit''
   \<and> snd (withNicknames_in [''Orbit'', ''Forge''] [session_a, session_b] ! 1) \<noteq> ''Forge''
   \<and> key (fst (withNicknames_in [''Orbit'', ''Forge''] [session_a, session_b] ! 1)) = ''b''"
proof -
  have "map (\<lambda>p. (key (fst p), snd p)) (withNicknames_in [''Orbit'', ''Forge''] [session_a, session_b]) ! 1
      = (''b'', ''Orbit'')"
    by (simp add: scenario_two_pool)
  moreover have "length (withNicknames_in [''Orbit'', ''Forge''] [session_a, session_b]) = 2"
    by (simp add: withNicknames_in_def)
  ultimately show ?thesis by simp
qed

end
